theory Spec2Isabelle
  imports Complex_Main
begin

section \<open>The firetruck puzzle: data model\<close>

text \<open>
  The component \<^verbatim>\<open>FiretruckPuzzleApp\<close> (file \<^verbatim>\<open>src/FiretruckPuzzleApp.jsx\<close>) keeps
  four pieces of state: the board size in pixels, the piece registry, the completion
  flag and the current drag session. JavaScript numbers are modelled as real numbers;
  the viewport dimensions \<^verbatim>\<open>window.innerWidth\<close> and \<^verbatim>\<open>window.innerHeight\<close> are
  integers. The snap test of \<^verbatim>\<open>onUp\<close> is the one place where the outcome of a rounded
  computation decides what the program does, and its arithmetic is rounded to double
  precision (section on double precision below). The other arithmetic (scale, pointer
  conversion, offsets, spawn positions) is exact: the numbers it produces can differ
  from the program's in the last bits, and on the sample inputs used below, all dyadic
  fractions, double arithmetic is exact as well. The values Infinity and NaN and the
  limits of the exponent range of a double are outside the model. The DOM element \<^verbatim>\<open>el\<close>
  carried by a drag session and the style writes and confetti spans are cosmetic and
  are left out: no handler reads them back.
\<close>

record point =
  pt_x :: real
  pt_y :: real

record manifest_entry =
  file_m :: string
  target_m :: point

record piece =
  id_p :: string
  src :: string
  target :: point
  position :: point
  placed :: bool

text \<open>
  The drag session is the object stored in \<^verbatim>\<open>dragRef.current\<close>. The fields
  \<^verbatim>\<open>lastX\<close> and \<^verbatim>\<open>lastY\<close> are absent (undefined) until the first pointer-move.
\<close>

record drag =
  id_d :: string
  offX :: real
  offY :: real
  lastX :: "real option"
  lastY :: "real option"

record app =
  boardPx :: int
  pieces :: "piece list"
  completed :: bool
  dragRef :: "drag option"

text \<open>A pointer event, and the board's bounding rectangle when the event is handled.\<close>

record pointer =
  clientX :: real
  clientY :: real

record rect =
  rect_left :: real
  rect_top :: real

datatype event =
    PointerDown string pointer rect
  | PointerMove pointer rect
  | PointerUp
  | Resize int int

section \<open>Constants and the layout scaler\<close>

definition BASE_SIZE :: real where
  "BASE_SIZE = 1024"

definition MAX_BOARD_PX :: int where
  "MAX_BOARD_PX = 600"

definition SNAP_RADIUS :: real where
  "SNAP_RADIUS = 40"

text \<open>\<^verbatim>\<open>Math.min(vw - 32, vh - 180, MAX_BOARD_PX)\<close>\<close>

definition calcBoardPx :: "int \<Rightarrow> int \<Rightarrow> int" where
  "calcBoardPx vw vh = min (vw - 32) (min (vh - 180) MAX_BOARD_PX)"

text \<open>\<^verbatim>\<open>const scale = boardPx / BASE_SIZE\<close>\<close>

definition scale :: "int \<Rightarrow> real" where
  "scale px = real_of_int px / BASE_SIZE"

section \<open>Loading the manifest\<close>

text \<open>
  \<^verbatim>\<open>randomOnBoard\<close> draws \<^verbatim>\<open>Math.random()\<close> twice; the two draws are parameters.
\<close>

definition margin :: real where
  "margin = 100"

definition randomOnBoard :: "real \<Rightarrow> real \<Rightarrow> point" where
  "randomOnBoard r1 r2 =
     \<lparr>pt_x = r1 * (BASE_SIZE - 2 * margin) + margin,
      pt_y = r2 * (BASE_SIZE - 2 * margin) + margin\<rparr>"

text \<open>
  The two earlier revisions of the component kept in the repository (the tray layout)
  spawn the pieces with \<^verbatim>\<open>randTray\<close> (\<^verbatim>\<open>randomTrayPos\<close>) instead, in a tray
  under the board; the header of \<^verbatim>\<open>src/FiretruckPuzzleApp.jsx\<close> records that the
  tray is gone. It is modelled for comparison only.
\<close>

definition randTray :: "real \<Rightarrow> real \<Rightarrow> point" where
  "randTray r1 r2 =
     \<lparr>pt_x = r1 * (BASE_SIZE - 150) + 25, pt_y = BASE_SIZE + 40 + r2 * 60\<rparr>"

text \<open>
  \<^verbatim>\<open>p.file.replace(/\.png$/i, "")\<close>: a final \<^verbatim>\<open>.png\<close>, in any letter case, is
  removed.
\<close>

definition is_png_suffix :: "string \<Rightarrow> bool" where
  "is_png_suffix t =
     (case t of
        [c0, c1, c2, c3] \<Rightarrow>
          c0 = CHR ''.'' \<and> (c1 = CHR ''p'' \<or> c1 = CHR ''P'') \<and>
          (c2 = CHR ''n'' \<or> c2 = CHR ''N'') \<and> (c3 = CHR ''g'' \<or> c3 = CHR ''G'')
      | _ \<Rightarrow> False)"

definition strip_png :: "string \<Rightarrow> string" where
  "strip_png f =
     (if 4 \<le> length f \<and> is_png_suffix (drop (length f - 4) f)
      then take (length f - 4) f else f)"

text \<open>
  The \<^verbatim>\<open>data.map\<close> of the manifest effect. The stream \<open>rnd\<close> supplies the results of
  the successive calls of \<^verbatim>\<open>Math.random()\<close>; the piece built from the entry at
  index \<open>k\<close> consumes two of them, first for \<open>x\<close>, then for \<open>y\<close>.
\<close>

fun initialize :: "(nat \<Rightarrow> real) \<Rightarrow> nat \<Rightarrow> manifest_entry list \<Rightarrow> piece list" where
  "initialize rnd k [] = []"
| "initialize rnd k (e # es) =
     \<lparr>id_p = strip_png (file_m e),
      src = ''/assets/pieces/'' @ file_m e,
      target = target_m e,
      position = randomOnBoard (rnd k) (rnd (Suc k)),
      placed = False\<rparr> # initialize rnd (Suc (Suc k)) es"

section \<open>Completion\<close>

text \<open>
  The effect with dependencies \<^verbatim>\<open>[pieces, scale]\<close>:
  \<^verbatim>\<open>if (pieces.length && pieces.every((p) => p.placed)) setCompleted(true)\<close>.
\<close>

definition completion_effect :: "app \<Rightarrow> app" where
  "completion_effect s =
     (if length (pieces s) \<noteq> 0 \<and> list_all placed (pieces s)
      then s\<lparr>completed := True\<rparr> else s)"

section \<open>Pointer math\<close>

text \<open>
  \<^verbatim>\<open>toLocal\<close> divides by the scale. At scale 0 (a board of 0 pixels) JavaScript
  yields a non-finite number where HOL yields 0: there the offsets recorded by
  \<^verbatim>\<open>onDown\<close> and the positions computed by \<^verbatim>\<open>onMove\<close> are not those of the program.
  Which session is recorded and which pieces change does not depend on them.
\<close>

definition toLocal :: "real \<Rightarrow> pointer \<Rightarrow> rect \<Rightarrow> point" where
  "toLocal sc e r =
     \<lparr>pt_x = (clientX e - rect_left r) / sc, pt_y = (clientY e - rect_top r) / sc\<rparr>"

text \<open>
  \<^verbatim>\<open>tx\<close> builds the CSS text \<^verbatim>\<open>translate(Xpx, Ypx) scale(S)\<close>; the model keeps its
  three numbers.
\<close>

record transform =
  translate_x :: real
  translate_y :: real
  scale_factor :: real

definition tx :: "real \<Rightarrow> real \<Rightarrow> real \<Rightarrow> real \<Rightarrow> transform" where
  "tx sc x y s = \<lparr>translate_x = x * sc, translate_y = y * sc, scale_factor = sc * s\<rparr>"

section \<open>Double precision\<close>

text \<open>
  A JavaScript number is an IEEE 754 double: 53 significant bits. \<open>fl x\<close> is the real
  \<open>x\<close> rounded to the nearest such number, ties to the even significand: when
  \<open>|x|\<close> lies between \<open>2 ^ e\<close> and \<open>2 ^ (e + 1)\<close>, the doubles around \<open>x\<close> are the
  multiples of \<open>2 ^ (e - 52)\<close>. The exponent is not bounded here: overflow to Infinity
  and the coarser spacing of subnormal numbers are not modelled.
\<close>

definition rne :: "real \<Rightarrow> int" where
  "rne q =
     (let f = \<lfloor>q\<rfloor> in
      if q - of_int f < 1 / 2 then f
      else if 1 / 2 < q - of_int f then f + 1
      else if even f then f else f + 1)"

definition binade :: "real \<Rightarrow> int" where
  "binade x = \<lfloor>log 2 \<bar>x\<bar>\<rfloor>"

definition fl :: "real \<Rightarrow> real" where
  "fl x =
     (if x = 0 then 0
      else of_int (rne (x / 2 powr (of_int (binade x) - 52))) * 2 powr (of_int (binade x) - 52))"

definition unit_roundoff :: real where
  "unit_roundoff = 1 / 2 ^ 53"

text \<open>The subtraction of two numbers.\<close>

definition js_sub :: "real \<Rightarrow> real \<Rightarrow> real" where
  "js_sub a b = fl (a - b)"

text \<open>
  \<^verbatim>\<open>Math.hypot\<close> of two arguments. ECMAScript leaves its last bits to the
  implementation; the model takes the correctly rounded value. The general statements
  on the snap test below keep a margin of \<open>1 / 2 ^ 40\<close> around the threshold, over a
  hundred times the spacing of the doubles near 40, and the one input evaluated inside
  that margin is one whose exact distance is far from a rounding boundary.
\<close>

definition hypot :: "real \<Rightarrow> real \<Rightarrow> real" where
  "hypot a b = fl (sqrt (a\<^sup>2 + b\<^sup>2))"

section \<open>Pointer handlers\<close>

text \<open>\<^verbatim>\<open>Array.prototype.findIndex\<close>, with \<open>None\<close> for the result \<open>-1\<close>.\<close>

fun findIndex :: "('a \<Rightarrow> bool) \<Rightarrow> 'a list \<Rightarrow> nat option" where
  "findIndex P [] = None"
| "findIndex P (a # as) =
     (if P a then Some 0 else map_option Suc (findIndex P as))"

definition onDown :: "string \<Rightarrow> pointer \<Rightarrow> rect \<Rightarrow> app \<Rightarrow> app" where
  "onDown i e r s =
     (if completed s then s
      else case findIndex (\<lambda>p. id_p p = i) (pieces s) of
        None \<Rightarrow> s
      | Some idx \<Rightarrow>
          if placed (pieces s ! idx) then s
          else
            let pt = toLocal (scale (boardPx s)) e r;
                ox = pt_x pt - pt_x (position (pieces s ! idx));
                oy = pt_y pt - pt_y (position (pieces s ! idx))
            in s\<lparr>dragRef :=
                   Some \<lparr>id_d = i, offX = ox, offY = oy, lastX = None, lastY = None\<rparr>\<rparr>)"

definition onMove :: "pointer \<Rightarrow> rect \<Rightarrow> app \<Rightarrow> app" where
  "onMove e r s =
     (case dragRef s of
        None \<Rightarrow> s
      | Some d \<Rightarrow>
          let pt = toLocal (scale (boardPx s)) e r;
              x = pt_x pt - offX d;
              y = pt_y pt - offY d
          in s\<lparr>dragRef := Some (d\<lparr>lastX := Some x, lastY := Some y\<rparr>)\<rparr>)"

text \<open>
  The function mapped over the registry by \<^verbatim>\<open>onUp\<close>; \<^verbatim>\<open>a ?? b\<close> is the case on the
  option. The two differences and \<^verbatim>\<open>Math.hypot\<close> are computed in double precision.
\<close>

definition onUp_piece :: "drag \<Rightarrow> piece \<Rightarrow> piece" where
  "onUp_piece d p =
     (if id_p p \<noteq> id_d d \<or> placed p then p
      else
        let x = (case lastX d of Some v \<Rightarrow> v | None \<Rightarrow> pt_x (position p));
            y = (case lastY d of Some v \<Rightarrow> v | None \<Rightarrow> pt_y (position p));
            dist = hypot (js_sub (pt_x (target p)) x) (js_sub (pt_y (target p)) y)
        in if dist < SNAP_RADIUS then p\<lparr>placed := True, position := target p\<rparr>
           else p\<lparr>position := \<lparr>pt_x = x, pt_y = y\<rparr>\<rparr>)"

definition onUp :: "app \<Rightarrow> app" where
  "onUp s =
     (case dragRef s of
        None \<Rightarrow> s
      | Some d \<Rightarrow> s\<lparr>dragRef := None, pieces := map (onUp_piece d) (pieces s)\<rparr>)"

definition onResize :: "int \<Rightarrow> int \<Rightarrow> app \<Rightarrow> app" where
  "onResize vw vh s = s\<lparr>boardPx := calcBoardPx vw vh\<rparr>"

section \<open>The component as a transition system\<close>

text \<open>
  The state at mount: \<^verbatim>\<open>useState(calcBoardPx)\<close>, \<^verbatim>\<open>useState([])\<close>,
  \<^verbatim>\<open>useState(false)\<close>, \<^verbatim>\<open>useRef(null)\<close>.
\<close>

definition init_state :: "int \<Rightarrow> int \<Rightarrow> app" where
  "init_state vw vh =
     \<lparr>boardPx = calcBoardPx vw vh, pieces = [], completed = False, dragRef = None\<rparr>"

text \<open>
  The manifest arrives: \<^verbatim>\<open>setPieces(data.map(...))\<close>, after which the completion
  effect runs, since \<^verbatim>\<open>pieces\<close> changed.
\<close>

definition load_manifest :: "(nat \<Rightarrow> real) \<Rightarrow> manifest_entry list \<Rightarrow> app \<Rightarrow> app" where
  "load_manifest rnd data s = completion_effect (s\<lparr>pieces := initialize rnd 0 data\<rparr>)"

text \<open>
  One event. The completion effect runs after the handlers that set a state it depends
  on: after a pointer-up with a live session (\<^verbatim>\<open>setPieces\<close> installs a new array) and
  after a resize that changes the board size. Pointer-down and pointer-move write only
  the ref, so no render and no effect follow them.
\<close>

fun step :: "app \<Rightarrow> event \<Rightarrow> app" where
  "step s (PointerDown i e r) = onDown i e r s"
| "step s (PointerMove e r) = onMove e r s"
| "step s PointerUp =
     (case dragRef s of None \<Rightarrow> s | Some d \<Rightarrow> completion_effect (onUp s))"
| "step s (Resize vw vh) =
     (if calcBoardPx vw vh = boardPx s then s
      else completion_effect (onResize vw vh s))"

definition run :: "app \<Rightarrow> event list \<Rightarrow> app" where
  "run s evs = foldl step s evs"

text \<open>
  A whole load of the page: events before the manifest arrives, the arrival of the
  manifest, events after it.
\<close>

definition session ::
  "int \<Rightarrow> int \<Rightarrow> event list \<Rightarrow> (nat \<Rightarrow> real) \<Rightarrow> manifest_entry list \<Rightarrow> event list \<Rightarrow> app" where
  "session vw vh pre rnd data evs =
     run (load_manifest rnd data (run (init_state vw vh) pre)) evs"

section \<open>Invariants\<close>

definition placed_at_target :: "app \<Rightarrow> bool" where
  "placed_at_target s = list_all (\<lambda>p. placed p \<longrightarrow> position p = target p) (pieces s)"

definition completed_iff_all_placed :: "app \<Rightarrow> bool" where
  "completed_iff_all_placed s =
     (completed s \<longleftrightarrow> pieces s \<noteq> [] \<and> list_all placed (pieces s))"

section \<open>Sample inputs\<close>

text \<open>
  A viewport of 544 by 800 gives a board of 512 pixels, hence the scale 1/2. With every
  random draw equal to 1/2 each piece spawns at (512, 512).
\<close>

definition half_rnd :: "nat \<Rightarrow> real" where
  "half_rnd n = 1 / 2"

definition wheel :: manifest_entry where
  "wheel = \<lparr>file_m = ''wheel.png'', target_m = \<lparr>pt_x = 500, pt_y = 800\<rparr>\<rparr>"

definition ladder :: manifest_entry where
  "ladder = \<lparr>file_m = ''ladder.PNG'', target_m = \<lparr>pt_x = 300, pt_y = 200\<rparr>\<rparr>"

definition hose :: manifest_entry where
  "hose = \<lparr>file_m = ''hose.png'', target_m = \<lparr>pt_x = 512, pt_y = 512\<rparr>\<rparr>"

definition wheel_piece :: "real \<Rightarrow> real \<Rightarrow> bool \<Rightarrow> piece" where
  "wheel_piece a b pl =
     \<lparr>id_p = ''wheel'', src = ''/assets/pieces/wheel.png'',
      target = \<lparr>pt_x = 500, pt_y = 800\<rparr>, position = \<lparr>pt_x = a, pt_y = b\<rparr>, placed = pl\<rparr>"

definition board_rect :: rect where
  "board_rect = \<lparr>rect_left = 16, rect_top = 100\<rparr>"

definition press_wheel :: event where
  "press_wheel = PointerDown ''wheel'' \<lparr>clientX = 276, clientY = 360\<rparr> board_rect"

definition press_ladder :: event where
  "press_ladder = PointerDown ''ladder'' \<lparr>clientX = 281, clientY = 365\<rparr> board_rect"

definition press_hose :: event where
  "press_hose = PointerDown ''hose'' \<lparr>clientX = 276, clientY = 360\<rparr> board_rect"

definition move_near :: event where
  "move_near = PointerMove \<lparr>clientX = 545 / 2, clientY = 1013 / 2\<rparr> board_rect"

definition move_far :: event where
  "move_far = PointerMove \<lparr>clientX = 320, clientY = 554\<rparr> board_rect"



section \<open>Auxiliary facts\<close>

lemmas demo_defs =
  half_rnd_def wheel_def ladder_def hose_def wheel_piece_def board_rect_def
  press_wheel_def press_ladder_def press_hose_def move_near_def move_far_def

lemmas model_defs =
  session_def run_def init_state_def load_manifest_def completion_effect_def
  calcBoardPx_def MAX_BOARD_PX_def scale_def BASE_SIZE_def margin_def randomOnBoard_def
  strip_png_def is_png_suffix_def toLocal_def onDown_def onMove_def onUp_def
  onUp_piece_def onResize_def Let_def

subsection \<open>Rounding to a double\<close>

lemma rne_err: "\<bar>of_int (rne q) - q\<bar> \<le> 1 / 2"
proof -
  have "of_int \<lfloor>q\<rfloor> \<le> q" "q < of_int \<lfloor>q\<rfloor> + 1"
    by linarith+
  then show ?thesis
    by (auto simp add: rne_def Let_def)
qed

lemma rne_near:
  assumes "\<bar>q - of_int k\<bar> < 1 / 2"
  shows "rne q = k"
proof -
  have fl: "of_int \<lfloor>q\<rfloor> \<le> q" "q < of_int \<lfloor>q\<rfloor> + 1"
    by linarith+
  from assms have q: "real_of_int k - 1 / 2 < q" "q < of_int k + 1 / 2"
    by linarith+
  with fl have "\<lfloor>q\<rfloor> = k \<or> \<lfloor>q\<rfloor> = k - 1"
    by linarith
  then show ?thesis
  proof
    assume "\<lfloor>q\<rfloor> = k"
    with q show ?thesis
      by (simp add: rne_def Let_def)
  next
    assume "\<lfloor>q\<rfloor> = k - 1"
    with q show ?thesis
      by (simp add: rne_def Let_def)
  qed
qed

lemma rne_of_int: "rne (of_int k) = k"
  by (rule rne_near) simp

lemma binade_le: "x \<noteq> 0 \<Longrightarrow> 2 powr of_int (binade x) \<le> \<bar>x\<bar>"
proof -
  assume "x \<noteq> 0"
  then have pos: "0 < \<bar>x\<bar>" by simp
  have "of_int (binade x) \<le> log 2 \<bar>x\<bar>"
    by (simp add: binade_def)
  with pos show ?thesis
    by (simp add: le_log_iff)
qed


lemma fl_rel_err: "\<bar>fl x - x\<bar> \<le> unit_roundoff * \<bar>x\<bar>"
proof (cases "x = 0")
  case True
  then show ?thesis by (simp add: fl_def)
next
  case False
  define u :: real where "u = 2 powr (of_int (binade x) - 52)"
  have u_pos: "0 < u" by (simp add: u_def)
  have u_le: "u \<le> \<bar>x\<bar> / 2 ^ 52"
  proof -
    have "u = 2 powr of_int (binade x) / 2 ^ 52"
      by (simp add: u_def powr_diff)
    also have "\<dots> \<le> \<bar>x\<bar> / 2 ^ 52"
      using binade_le [OF False] by (simp add: divide_right_mono)
    finally show ?thesis .
  qed
  have "fl x - x = (of_int (rne (x / u)) - x / u) * u"
    using False u_pos by (simp add: fl_def u_def field_simps)
  then have "\<bar>fl x - x\<bar> = \<bar>of_int (rne (x / u)) - x / u\<bar> * u"
    using u_pos by (simp add: abs_mult)
  also have "\<dots> \<le> (1 / 2) * u"
    using rne_err [of "x / u"] u_pos by (intro mult_right_mono) simp_all
  also have "\<dots> \<le> (1 / 2) * (\<bar>x\<bar> / 2 ^ 52)"
    using u_le by simp
  also have "\<dots> = unit_roundoff * \<bar>x\<bar>"
    by (simp add: unit_roundoff_def)
  finally show ?thesis .
qed

lemma unit_roundoff_bounds: "0 < unit_roundoff" "unit_roundoff < 1"
  by (simp_all add: unit_roundoff_def)



lemma fl_abs_upper: "\<bar>fl x\<bar> \<le> (1 + unit_roundoff) * \<bar>x\<bar>"
proof -
  have "\<bar>fl x\<bar> \<le> \<bar>x\<bar> + \<bar>fl x - x\<bar>"
    by linarith
  also have "\<dots> \<le> \<bar>x\<bar> + unit_roundoff * \<bar>x\<bar>"
    using fl_rel_err [of x] by simp
  finally show ?thesis
    by (simp add: algebra_simps)
qed

lemma fl_abs_lower: "(1 - unit_roundoff) * \<bar>x\<bar> \<le> \<bar>fl x\<bar>"
proof -
  have "\<bar>x\<bar> - \<bar>fl x - x\<bar> \<le> \<bar>fl x\<bar>"
    by linarith
  moreover have "\<bar>x\<bar> - unit_roundoff * \<bar>x\<bar> \<le> \<bar>x\<bar> - \<bar>fl x - x\<bar>"
    using fl_rel_err [of x] by simp
  ultimately show ?thesis
    by (simp add: algebra_simps)
qed

lemma fl_nonneg: "0 \<le> x \<Longrightarrow> 0 \<le> fl x"
proof -
  assume x: "0 \<le> x"
  have "\<bar>fl x - x\<bar> \<le> unit_roundoff * x"
    using fl_rel_err [of x] x by simp
  moreover have "unit_roundoff * x \<le> 1 * x"
    using x unit_roundoff_bounds by (intro mult_right_mono) simp_all
  ultimately show ?thesis by linarith
qed

lemma fl_sq_upper: "(fl x)\<^sup>2 \<le> (1 + unit_roundoff)\<^sup>2 * x\<^sup>2"
proof -
  have "\<bar>fl x\<bar>\<^sup>2 \<le> ((1 + unit_roundoff) * \<bar>x\<bar>)\<^sup>2"
    using fl_abs_upper [of x] by (intro power_mono) simp_all
  also have "\<dots> = (1 + unit_roundoff)\<^sup>2 * \<bar>x\<bar>\<^sup>2"
    by (rule power_mult_distrib)
  finally show ?thesis
    by simp
qed

lemma fl_sq_lower: "(1 - unit_roundoff)\<^sup>2 * x\<^sup>2 \<le> (fl x)\<^sup>2"
proof -
  have nn: "0 \<le> (1 - unit_roundoff) * \<bar>x\<bar>"
    using unit_roundoff_bounds by simp
  have "((1 - unit_roundoff) * \<bar>x\<bar>)\<^sup>2 \<le> \<bar>fl x\<bar>\<^sup>2"
    using fl_abs_lower [of x] nn by (intro power_mono)
  moreover have "((1 - unit_roundoff) * \<bar>x\<bar>)\<^sup>2 = (1 - unit_roundoff)\<^sup>2 * \<bar>x\<bar>\<^sup>2"
    by (rule power_mult_distrib)
  ultimately show ?thesis
    by simp
qed

lemma hypot_js_sub_upper:
  "hypot (js_sub a b) (js_sub c d) \<le> (1 + unit_roundoff)\<^sup>2 * sqrt ((a - b)\<^sup>2 + (c - d)\<^sup>2)"
proof -
  let ?S = "(a - b)\<^sup>2 + (c - d)\<^sup>2"
  let ?T = "(fl (a - b))\<^sup>2 + (fl (c - d))\<^sup>2"
  have up: "0 \<le> 1 + unit_roundoff"
    using unit_roundoff_bounds by simp
  have "?T \<le> (1 + unit_roundoff)\<^sup>2 * (a - b)\<^sup>2 + (1 + unit_roundoff)\<^sup>2 * (c - d)\<^sup>2"
    using fl_sq_upper [of "a - b"] fl_sq_upper [of "c - d"] by (rule add_mono)
  also have "\<dots> = (1 + unit_roundoff)\<^sup>2 * ?S"
    by (simp add: distrib_left)
  finally have "sqrt ?T \<le> sqrt ((1 + unit_roundoff)\<^sup>2 * ?S)"
    by (rule real_sqrt_le_mono)
  also have "\<dots> = (1 + unit_roundoff) * sqrt ?S"
    using up by (simp add: real_sqrt_mult)
  finally have T: "sqrt ?T \<le> (1 + unit_roundoff) * sqrt ?S" .
  have "fl (sqrt ?T) \<le> \<bar>fl (sqrt ?T)\<bar>"
    by simp
  also have "\<dots> \<le> (1 + unit_roundoff) * \<bar>sqrt ?T\<bar>"
    by (rule fl_abs_upper)
  also have "\<dots> = (1 + unit_roundoff) * sqrt ?T"
    by simp
  also have "\<dots> \<le> (1 + unit_roundoff) * ((1 + unit_roundoff) * sqrt ?S)"
    using T up by (intro mult_left_mono)
  also have "\<dots> = (1 + unit_roundoff)\<^sup>2 * sqrt ?S"
    by (simp add: power2_eq_square)
  finally show ?thesis
    by (simp add: hypot_def js_sub_def)
qed

lemma hypot_js_sub_lower:
  "(1 - unit_roundoff)\<^sup>2 * sqrt ((a - b)\<^sup>2 + (c - d)\<^sup>2) \<le> hypot (js_sub a b) (js_sub c d)"
proof -
  let ?S = "(a - b)\<^sup>2 + (c - d)\<^sup>2"
  let ?T = "(fl (a - b))\<^sup>2 + (fl (c - d))\<^sup>2"
  have lo: "0 \<le> 1 - unit_roundoff"
    using unit_roundoff_bounds by simp
  have "(1 - unit_roundoff)\<^sup>2 * ?S =
          (1 - unit_roundoff)\<^sup>2 * (a - b)\<^sup>2 + (1 - unit_roundoff)\<^sup>2 * (c - d)\<^sup>2"
    by (simp add: distrib_left)
  also have "\<dots> \<le> ?T"
    using fl_sq_lower [of "a - b"] fl_sq_lower [of "c - d"] by (rule add_mono)
  finally have "sqrt ((1 - unit_roundoff)\<^sup>2 * ?S) \<le> sqrt ?T"
    by (rule real_sqrt_le_mono)
  moreover have "sqrt ((1 - unit_roundoff)\<^sup>2 * ?S) = (1 - unit_roundoff) * sqrt ?S"
    using lo by (simp add: real_sqrt_mult)
  ultimately have T: "(1 - unit_roundoff) * sqrt ?S \<le> sqrt ?T"
    by simp
  have "(1 - unit_roundoff)\<^sup>2 * sqrt ?S = (1 - unit_roundoff) * ((1 - unit_roundoff) * sqrt ?S)"
    by (simp add: power2_eq_square)
  also have "\<dots> \<le> (1 - unit_roundoff) * sqrt ?T"
    using T lo by (intro mult_left_mono)
  also have "\<dots> = (1 - unit_roundoff) * \<bar>sqrt ?T\<bar>"
    by simp
  also have "\<dots> \<le> \<bar>fl (sqrt ?T)\<bar>"
    by (rule fl_abs_lower)
  also have "\<dots> = fl (sqrt ?T)"
    using fl_nonneg [of "sqrt ?T"] by simp
  finally show ?thesis
    by (simp add: hypot_def js_sub_def)
qed

lemma snap_test_near:
  assumes "sqrt ((a - b)\<^sup>2 + (c - d)\<^sup>2) \<le> 40 - 1 / 2 ^ 40"
  shows "hypot (js_sub a b) (js_sub c d) < SNAP_RADIUS"
proof -
  have "hypot (js_sub a b) (js_sub c d)
          \<le> (1 + unit_roundoff)\<^sup>2 * sqrt ((a - b)\<^sup>2 + (c - d)\<^sup>2)"
    by (rule hypot_js_sub_upper)
  also have "\<dots> \<le> (1 + unit_roundoff)\<^sup>2 * (40 - 1 / 2 ^ 40)"
    using assms by (intro mult_left_mono) simp_all
  also have "\<dots> < 40"
    by (simp add: unit_roundoff_def power2_eq_square)
  finally show ?thesis
    by (simp add: SNAP_RADIUS_def)
qed

lemma snap_test_far:
  assumes "40 + 1 / 2 ^ 40 \<le> sqrt ((a - b)\<^sup>2 + (c - d)\<^sup>2)"
  shows "\<not> hypot (js_sub a b) (js_sub c d) < SNAP_RADIUS"
proof -
  have "(40::real) < (1 - unit_roundoff)\<^sup>2 * (40 + 1 / 2 ^ 40)"
    by (simp add: unit_roundoff_def power2_eq_square)
  also have "\<dots> \<le> (1 - unit_roundoff)\<^sup>2 * sqrt ((a - b)\<^sup>2 + (c - d)\<^sup>2)"
    using assms by (intro mult_left_mono) simp_all
  also have "\<dots> \<le> hypot (js_sub a b) (js_sub c d)"
    by (rule hypot_js_sub_lower)
  finally show ?thesis
    by (simp add: SNAP_RADIUS_def)
qed

lemma snap_test_le_1599:
  assumes "(a - b)\<^sup>2 + (c - d)\<^sup>2 \<le> 1599"
  shows "(hypot (js_sub a b) (js_sub c d) < SNAP_RADIUS) = True"
proof -
  have "(1599::real) \<le> (40 - 1 / 2 ^ 40)\<^sup>2"
    by (simp add: power2_eq_square)
  with assms have "(a - b)\<^sup>2 + (c - d)\<^sup>2 \<le> (40 - 1 / 2 ^ 40)\<^sup>2"
    by linarith
  then have "sqrt ((a - b)\<^sup>2 + (c - d)\<^sup>2) \<le> 40 - 1 / 2 ^ 40"
    by (intro real_le_lsqrt) simp_all
  then show ?thesis
    by (simp add: snap_test_near)
qed

lemma snap_test_ge_1601:
  assumes "1601 \<le> (a - b)\<^sup>2 + (c - d)\<^sup>2"
  shows "(hypot (js_sub a b) (js_sub c d) < SNAP_RADIUS) = False"
proof -
  have "(40 + 1 / 2 ^ 40)\<^sup>2 \<le> (1601::real)"
    by (simp add: power2_eq_square)
  with assms have "(40 + 1 / 2 ^ 40)\<^sup>2 \<le> (a - b)\<^sup>2 + (c - d)\<^sup>2"
    by linarith
  then have "40 + 1 / 2 ^ 40 \<le> sqrt ((a - b)\<^sup>2 + (c - d)\<^sup>2)"
    by (rule real_le_rsqrt)
  then show ?thesis
    using snap_test_far by simp
qed

subsection \<open>The release point on the edge\<close>







subsection \<open>The three outcomes of the snap test\<close>






subsection \<open>Runs\<close>

lemma run_Nil: "run s [] = s"
  by (simp add: run_def)

lemma run_Cons: "run s (ev # evs) = run (step s ev) evs"
  by (simp add: run_def)

lemma run_append: "run s (evs @ evs') = run (run s evs) evs'"
  by (simp add: run_def)

subsection \<open>What the events leave alone\<close>

lemma pieces_completion_effect [simp]:
  "pieces (completion_effect s) = pieces s"
  by (simp add: completion_effect_def)

lemma dragRef_completion_effect [simp]:
  "dragRef (completion_effect s) = dragRef s"
  by (simp add: completion_effect_def)

lemma pieces_step_Up:
  "dragRef s = Some d \<Longrightarrow> pieces (step s PointerUp) = map (onUp_piece d) (pieces s)"
  by (simp add: onUp_def)

lemma length_pieces_step: "length (pieces (step s ev)) = length (pieces s)"
  by (cases ev)
     (simp_all add: onDown_def onMove_def onUp_def onResize_def Let_def
        split: option.splits)

lemma onUp_piece_placed: "placed p \<Longrightarrow> onUp_piece d p = p"
  by (simp add: onUp_piece_def)

lemma placed_step:
  "i < length (pieces s) \<Longrightarrow> placed (pieces s ! i) \<Longrightarrow> pieces (step s ev) ! i = pieces s ! i"
  by (cases ev)
     (simp_all add: onDown_def onMove_def onUp_def onResize_def Let_def onUp_piece_placed
        split: option.splits)

lemma length_pieces_run: "length (pieces (run s evs)) = length (pieces s)"
  by (induction evs arbitrary: s) (simp_all add: run_Nil run_Cons length_pieces_step)

lemma placed_run:
  "i < length (pieces s) \<Longrightarrow> placed (pieces s ! i) \<Longrightarrow> pieces (run s evs) ! i = pieces s ! i"
proof (induction evs arbitrary: s)
  case Nil
  show ?case by (simp add: run_Nil)
next
  case (Cons ev evs)
  have "pieces (run (step s ev) evs) ! i = pieces (step s ev) ! i"
    using Cons.prems by (intro Cons.IH) (simp_all add: length_pieces_step placed_step)
  then show ?case
    using Cons.prems by (simp add: run_Cons placed_step)
qed

lemma map_onUp_piece_all_placed:
  "list_all placed ps \<Longrightarrow> map (onUp_piece d) ps = ps"
  by (simp add: map_idI list_all_iff onUp_piece_placed)

lemma completed_step: "completed s \<Longrightarrow> completed (step s ev)"
  by (cases ev)
     (simp_all add: onDown_def onMove_def onUp_def onResize_def completion_effect_def Let_def
        split: option.splits)

lemma completed_run: "completed s \<Longrightarrow> completed (run s evs)"
  by (induction evs arbitrary: s) (simp_all add: run_Nil run_Cons completed_step)

subsection \<open>A placed piece sits on its target\<close>

lemma onUp_piece_at_target:
  "(placed p \<longrightarrow> position p = target p) \<Longrightarrow>
   placed (onUp_piece d p) \<longrightarrow> position (onUp_piece d p) = target (onUp_piece d p)"
  by (simp add: onUp_piece_def Let_def)

lemma placed_at_target_step: "placed_at_target s \<Longrightarrow> placed_at_target (step s ev)"
proof (cases ev)
  case PointerUp
  assume "placed_at_target s"
  then show ?thesis
    using PointerUp
    by (auto simp add: placed_at_target_def onUp_def list_all_iff onUp_piece_at_target
          split: option.splits)
qed (simp_all add: placed_at_target_def onDown_def onMove_def onResize_def Let_def
       split: option.splits)

lemma placed_at_target_run: "placed_at_target s \<Longrightarrow> placed_at_target (run s evs)"
  by (induction evs arbitrary: s) (simp_all add: run_Nil run_Cons placed_at_target_step)

lemma initialize_unplaced: "p \<in> set (initialize rnd k es) \<Longrightarrow> \<not> placed p"
  by (induction es arbitrary: k) auto

lemma placed_at_target_load: "placed_at_target (load_manifest rnd data s)"
  by (auto simp add: placed_at_target_def load_manifest_def list_all_iff
        dest: initialize_unplaced)

lemma placed_at_target_session: "placed_at_target (session vw vh pre rnd data evs)"
  unfolding session_def by (intro placed_at_target_run placed_at_target_load)

subsection \<open>The completion flag follows the registry\<close>

lemma completed_iff_step:
  "completed_iff_all_placed s \<Longrightarrow> completed_iff_all_placed (step s ev)"
proof (cases ev)
  case PointerUp
  assume "completed_iff_all_placed s"
  then show ?thesis
    using PointerUp
    by (auto simp add: completed_iff_all_placed_def onUp_def completion_effect_def
          map_onUp_piece_all_placed split: option.splits)
next
  case (Resize vw vh)
  assume "completed_iff_all_placed s"
  then show ?thesis
    using Resize
    by (auto simp add: completed_iff_all_placed_def onResize_def completion_effect_def)
qed (simp_all add: completed_iff_all_placed_def onDown_def onMove_def Let_def
       split: option.splits)

lemma completed_iff_run:
  "completed_iff_all_placed s \<Longrightarrow> completed_iff_all_placed (run s evs)"
  by (induction evs arbitrary: s) (simp_all add: run_Nil run_Cons completed_iff_step)

lemma initialize_not_all_placed:
  "initialize rnd k es \<noteq> [] \<Longrightarrow> \<not> list_all placed (initialize rnd k es)"
  by (cases es) simp_all

lemma pieces_before_load: "pieces (run (init_state vw vh) pre) = []"
  using length_pieces_run [of "init_state vw vh" pre] by (simp add: init_state_def)

lemma completed_before_load: "\<not> completed (run (init_state vw vh) pre)"
proof -
  have "completed_iff_all_placed (init_state vw vh)"
    by (simp add: completed_iff_all_placed_def init_state_def)
  then have "completed_iff_all_placed (run (init_state vw vh) pre)"
    by (rule completed_iff_run)
  then show ?thesis
    by (simp add: completed_iff_all_placed_def pieces_before_load)
qed

lemma completed_iff_load:
  "\<not> completed s \<Longrightarrow> completed_iff_all_placed (load_manifest rnd data s)"
  using initialize_not_all_placed [of rnd 0 data]
  by (auto simp add: completed_iff_all_placed_def load_manifest_def completion_effect_def)

lemma completed_iff_session: "completed_iff_all_placed (session vw vh pre rnd data evs)"
  unfolding session_def
  by (intro completed_iff_run completed_iff_load completed_before_load)

subsection \<open>Spawn positions\<close>

lemma randomOnBoard_range:
  assumes "0 \<le> r1" "r1 < 1" "0 \<le> r2" "r2 < 1"
  shows "100 \<le> pt_x (randomOnBoard r1 r2) \<and> pt_x (randomOnBoard r1 r2) < 924 \<and>
         100 \<le> pt_y (randomOnBoard r1 r2) \<and> pt_y (randomOnBoard r1 r2) < 924"
  using assms by (simp add: randomOnBoard_def BASE_SIZE_def margin_def)

lemma initialize_range:
  assumes "\<And>n. 0 \<le> rnd n \<and> rnd n < 1"
  shows "p \<in> set (initialize rnd k es) \<Longrightarrow>
         100 \<le> pt_x (position p) \<and> pt_x (position p) < 924 \<and>
         100 \<le> pt_y (position p) \<and> pt_y (position p) < 924"
proof (induction es arbitrary: k)
  case Nil
  then show ?case by simp
next
  case (Cons e es)
  from Cons.prems consider
    "position p = randomOnBoard (rnd k) (rnd (Suc k))" | "p \<in> set (initialize rnd (Suc (Suc k)) es)"
    by auto
  then show ?case
  proof cases
    case 1
    then show ?thesis
      using randomOnBoard_range [of "rnd k" "rnd (Suc k)"] assms by simp
  next
    case 2
    then show ?thesis by (rule Cons.IH)
  qed
qed

lemma randTray_below_board:
  assumes "0 \<le> r2"
  shows "BASE_SIZE < pt_y (randTray r1 r2)"
  using assms by (simp add: randTray_def BASE_SIZE_def)

subsection \<open>The sample load, evaluated\<close>

lemma demo_loaded:
  "session 544 800 [] half_rnd [wheel] [] =
     \<lparr>boardPx = 512, pieces = [wheel_piece 512 512 False], completed = False, dragRef = None\<rparr>"
  by (simp add: model_defs demo_defs)

lemma demo_pressed:
  "session 544 800 [] half_rnd [wheel] [press_wheel] =
     \<lparr>boardPx = 512, pieces = [wheel_piece 512 512 False], completed = False,
      dragRef = Some \<lparr>id_d = ''wheel'', offX = 8, offY = 8, lastX = None, lastY = None\<rparr>\<rparr>"
  by (simp add: model_defs demo_defs)



lemma demo_snapped:
  "session 544 800 [] half_rnd [wheel] [press_wheel, move_near, PointerUp] =
     \<lparr>boardPx = 512, pieces = [wheel_piece 500 800 True], completed = True, dragRef = None\<rparr>"
  by (simp add: model_defs demo_defs snap_test_le_1599 snap_test_ge_1601)

lemma demo_settled:
  "session 544 800 [] half_rnd [wheel] [press_wheel, move_far, PointerUp] =
     \<lparr>boardPx = 512, pieces = [wheel_piece 600 900 False], completed = False, dragRef = None\<rparr>"
  by (simp add: model_defs demo_defs snap_test_le_1599 snap_test_ge_1601)



section \<open>The claims\<close>

subsection \<open>C1: snap or settle on pointer-up\<close>




subsection \<open>C2: a placed piece is final\<close>

text \<open>
  C2. In every state of a load, a piece that is placed sits on its target, and neither
  the completion check nor any event (pointer-down, pointer-move, pointer-up, resize),
  nor any sequence of events, changes it: the registry keeps its length and the piece
  at that index stays identical, so its flag never reverts and its position stays the
  target.
\<close>

theorem placed_is_permanent:
  assumes "s = session vw vh pre rnd data evs"
      and "i < length (pieces s)" "placed (pieces s ! i)"
  shows "position (pieces s ! i) = target (pieces s ! i) \<and>
         pieces (completion_effect s) = pieces s \<and>
         length (pieces (step s ev)) = length (pieces s) \<and>
         pieces (step s ev) ! i = pieces s ! i \<and>
         length (pieces (run s evs')) = length (pieces s) \<and>
         pieces (run s evs') ! i = pieces s ! i"
proof -
  have "placed_at_target s"
    unfolding assms(1) by (rule placed_at_target_session)
  then have "position (pieces s ! i) = target (pieces s ! i)"
    using assms(2,3) by (simp add: placed_at_target_def list_all_length)
  then show ?thesis
    using assms(2,3)
    by (simp add: length_pieces_step placed_step length_pieces_run placed_run)
qed

text \<open>
  C2 on the sample load: once the wheel has snapped, a second drag far away from the
  target followed by a resize leaves it placed on (500, 800).
\<close>

theorem placed_is_permanent_witness:
  "pieces (session 544 800 [] half_rnd [wheel] [press_wheel, move_near, PointerUp]) ! 0
     = wheel_piece 500 800 True \<and>
   pieces (run (session 544 800 [] half_rnd [wheel] [press_wheel, move_near, PointerUp])
             [press_wheel, move_far, PointerUp, Resize 300 300]) ! 0
     = wheel_piece 500 800 True"
  using placed_is_permanent
    [OF refl, of 0 544 800 "[]" half_rnd "[wheel]" "[press_wheel, move_near, PointerUp]"
       press_wheel "[press_wheel, move_far, PointerUp, Resize 300 300]"]
  by (simp add: demo_snapped wheel_piece_def)

subsection \<open>C3: a stale session changes nothing\<close>

text \<open>
  C3. With unique piece ids, when the id of the drag session belongs to no piece of the
  registry, or to a piece that is already placed, the registry after pointer-up is the
  registry before it. The handler has no failing branch: the model is a total function.
\<close>

theorem onUp_stale_session_noop:
  assumes "dragRef s = Some d"
      and "distinct (map id_p (pieces s))"
      and "id_d d \<notin> set (map id_p (pieces s)) \<or>
           (\<exists>p \<in> set (pieces s). id_p p = id_d d \<and> placed p)"
  shows "pieces (step s PointerUp) = pieces s"
proof -
  have "onUp_piece d q = q" if q: "q \<in> set (pieces s)" for q
  proof (cases "id_p q = id_d d")
    case False
    then show ?thesis by (simp add: onUp_piece_def)
  next
    case True
    with q have "id_d d \<in> set (map id_p (pieces s))"
      by force
    with assms(3) obtain p where p: "p \<in> set (pieces s)" "id_p p = id_d d" "placed p"
      by blast
    have "inj_on id_p (set (pieces s))"
      using assms(2) by (simp add: distinct_map)
    then have "q = p"
      using p q True by (simp add: inj_on_eq_iff [symmetric])
    with p show ?thesis by (simp add: onUp_piece_def)
  qed
  then have "map (onUp_piece d) (pieces s) = pieces s"
    by (simp add: map_idI)
  with pieces_step_Up [OF assms(1)] show ?thesis
    by (simp only:)
qed

text \<open>
  C3 on two states: a session for the wheel, which is already placed, and a session for
  an id that no piece has.
\<close>

theorem onUp_stale_session_noop_witness:
  "pieces (step \<lparr>boardPx = 512, pieces = [wheel_piece 500 800 True], completed = False,
                 dragRef = Some \<lparr>id_d = ''wheel'', offX = 8, offY = 8,
                                 lastX = Some 600, lastY = Some 900\<rparr>\<rparr> PointerUp)
     = [wheel_piece 500 800 True] \<and>
   pieces (step \<lparr>boardPx = 512, pieces = [wheel_piece 512 512 False], completed = False,
                 dragRef = Some \<lparr>id_d = ''ghost'', offX = 8, offY = 8,
                                 lastX = Some 505, lastY = Some 805\<rparr>\<rparr> PointerUp)
     = [wheel_piece 512 512 False]"
  using onUp_stale_session_noop
    [of "\<lparr>boardPx = 512, pieces = [wheel_piece 500 800 True], completed = False,
          dragRef = Some \<lparr>id_d = ''wheel'', offX = 8, offY = 8,
                          lastX = Some 600, lastY = Some 900\<rparr>\<rparr>"
        "\<lparr>id_d = ''wheel'', offX = 8, offY = 8, lastX = Some 600, lastY = Some 900\<rparr>"]
    onUp_stale_session_noop
    [of "\<lparr>boardPx = 512, pieces = [wheel_piece 512 512 False], completed = False,
          dragRef = Some \<lparr>id_d = ''ghost'', offX = 8, offY = 8,
                          lastX = Some 505, lastY = Some 805\<rparr>\<rparr>"
        "\<lparr>id_d = ''ghost'', offX = 8, offY = 8, lastX = Some 505, lastY = Some 805\<rparr>"]
  by (simp add: wheel_piece_def)

subsection \<open>The coordinate round trip in exact arithmetic\<close>

text \<open>
  A piece is drawn inside the board, so the translation computed by \<^verbatim>\<open>tx\<close> is laid
  out from the board's origin. In exact arithmetic and at a non-zero scale, the design
  position computed by \<^verbatim>\<open>toLocal\<close> is drawn back exactly where the pointer was. C4
  bounds the rounding error of the same computation in double precision; that bound is
  not stated here, since \<^verbatim>\<open>toLocal\<close> and \<^verbatim>\<open>tx\<close> are modelled with exact arithmetic.
\<close>

lemma toLocal_tx_exact:
  assumes "sc \<noteq> 0"
  shows "rect_left r + translate_x (tx sc (pt_x (toLocal sc e r)) (pt_y (toLocal sc e r)) 1)
           = clientX e \<and>
         rect_top r + translate_y (tx sc (pt_x (toLocal sc e r)) (pt_y (toLocal sc e r)) 1)
           = clientY e"
  using assms by (simp add: tx_def toLocal_def)

subsection \<open>C5: pieces spawn on the board\<close>

text \<open>
  C5. When every draw of \<^verbatim>\<open>Math.random()\<close> lies in [0, 1), every piece of the registry
  built from the manifest has both coordinates of its position in [100, 924], hence
  strictly inside the board (0, 1024).
\<close>

theorem initialize_on_board:
  assumes "\<forall>n. 0 \<le> rnd n \<and> rnd n < 1"
      and "p \<in> set (pieces (load_manifest rnd data s))"
  shows "100 \<le> pt_x (position p) \<and> pt_x (position p) \<le> 924 \<and>
         100 \<le> pt_y (position p) \<and> pt_y (position p) \<le> 924 \<and>
         0 < pt_x (position p) \<and> pt_x (position p) < BASE_SIZE \<and>
         0 < pt_y (position p) \<and> pt_y (position p) < BASE_SIZE \<and>
         BASE_SIZE = 1024"
proof -
  have "p \<in> set (initialize rnd 0 data)"
    using assms(2) by (simp add: load_manifest_def)
  then have "100 \<le> pt_x (position p) \<and> pt_x (position p) < 924 \<and>
         100 \<le> pt_y (position p) \<and> pt_y (position p) < 924"
    using assms(1) by (intro initialize_range) simp_all
  then show ?thesis
    by (simp add: BASE_SIZE_def)
qed

text \<open>C5 on the sample manifest: the wheel spawns at (512, 512).\<close>

theorem initialize_on_board_witness:
  "(\<forall>n. 0 \<le> half_rnd n \<and> half_rnd n < 1) \<and>
   pieces (load_manifest half_rnd [wheel] (init_state 544 800)) = [wheel_piece 512 512 False] \<and>
   100 \<le> pt_x (position (wheel_piece 512 512 False)) \<and>
   pt_x (position (wheel_piece 512 512 False)) \<le> 924 \<and>
   100 \<le> pt_y (position (wheel_piece 512 512 False)) \<and>
   pt_y (position (wheel_piece 512 512 False)) \<le> 924"
proof -
  have rnd: "\<forall>n. 0 \<le> half_rnd n \<and> half_rnd n < 1"
    by (simp add: half_rnd_def)
  have ps: "pieces (load_manifest half_rnd [wheel] (init_state 544 800)) =
              [wheel_piece 512 512 False]"
    by (simp add: model_defs demo_defs)
  then have "wheel_piece 512 512 False \<in>
               set (pieces (load_manifest half_rnd [wheel] (init_state 544 800)))"
    by simp
  from initialize_on_board [OF rnd this] rnd ps show ?thesis
    by simp
qed

subsection \<open>C6: the completion flag\<close>

text \<open>
  C6 as stated fails on the empty registry. With an empty manifest the set of placed
  pieces equals the full piece set (both are empty), yet the flag is false: the
  completion effect tests \<^verbatim>\<open>pieces.length\<close> first.
\<close>

theorem completion_empty_registry_counterexample:
  "set (filter placed (pieces (session 544 800 [] half_rnd [] [])))
     = set (pieces (session 544 800 [] half_rnd [] [])) \<and>
   \<not> completed (session 544 800 [] half_rnd [] [])"
  by (simp add: model_defs)

text \<open>
  C6, amended. In every state of a load the completion flag is true if and only if the
  registry is not empty and every piece is placed; once true it stays true under every
  event and every sequence of events, so it turns from false to true at most once.
\<close>

theorem completion_flag_iff:
  assumes "s = session vw vh pre rnd data evs"
  shows "(completed s \<longleftrightarrow> pieces s \<noteq> [] \<and> list_all placed (pieces s)) \<and>
         (completed s \<longrightarrow> completed (step s ev) \<and> completed (run s evs'))"
proof -
  have "completed_iff_all_placed s"
    unfolding assms by (rule completed_iff_session)
  then show ?thesis
    by (simp add: completed_iff_all_placed_def completed_step completed_run)
qed

text \<open>
  C6, amended, on the sample load: after the wheel has snapped the flag is true, and it
  is still true after a resize and after a further press, resize and release.
\<close>

theorem completion_flag_iff_witness:
  "completed (session 544 800 [] half_rnd [wheel] [press_wheel, move_near, PointerUp]) \<and>
   list_all placed
     (pieces (session 544 800 [] half_rnd [wheel] [press_wheel, move_near, PointerUp])) \<and>
   completed (step (session 544 800 [] half_rnd [wheel] [press_wheel, move_near, PointerUp])
                (Resize 300 300)) \<and>
   completed (run (session 544 800 [] half_rnd [wheel] [press_wheel, move_near, PointerUp])
                [press_wheel, Resize 300 300, PointerUp])"
  using completion_flag_iff
    [OF refl, of 544 800 "[]" half_rnd "[wheel]" "[press_wheel, move_near, PointerUp]"
       "Resize 300 300" "[press_wheel, Resize 300 300, PointerUp]"]
  by (simp add: demo_snapped wheel_piece_def)

subsection \<open>C7: no drag after completion\<close>

text \<open>
  C7. In a state of a load whose completion flag is true, a pointer-down on any piece
  returns the state unchanged (no session is created, no piece changes); and after any
  further events the flag is still true, the registry is the same, and a pointer-down
  is still without effect.
\<close>

theorem completed_refuses_pointer_down:
  assumes "s = session vw vh pre rnd data evs" and "completed s"
  shows "step s (PointerDown i e r) = s \<and>
         completed (run s evs') \<and>
         pieces (run s evs') = pieces s \<and>
         step (run s evs') (PointerDown i e r) = run s evs'"
proof -
  have still: "completed (run s evs')"
    using assms(2) by (rule completed_run)
  have "completed_iff_all_placed s"
    unfolding assms(1) by (rule completed_iff_session)
  with assms(2) have all: "list_all placed (pieces s)"
    by (simp add: completed_iff_all_placed_def)
  have "pieces (run s evs') = pieces s"
  proof (rule nth_equalityI)
    show "length (pieces (run s evs')) = length (pieces s)"
      by (rule length_pieces_run)
  next
    fix k assume "k < length (pieces (run s evs'))"
    then have k: "k < length (pieces s)"
      by (simp add: length_pieces_run)
    with all have "placed (pieces s ! k)"
      by (simp add: list_all_length)
    with k show "pieces (run s evs') ! k = pieces s ! k"
      by (rule placed_run)
  qed
  with still assms(2) show ?thesis
    by (simp add: onDown_def)
qed

text \<open>
  C7 on the sample load: once the wheel has snapped the puzzle is complete, a press on
  the wheel returns the same state, and a whole further drag leaves the registry as it
  was.
\<close>

theorem completed_refuses_pointer_down_witness:
  "completed (session 544 800 [] half_rnd [wheel] [press_wheel, move_near, PointerUp]) \<and>
   step (session 544 800 [] half_rnd [wheel] [press_wheel, move_near, PointerUp])
     (PointerDown ''wheel'' \<lparr>clientX = 276, clientY = 360\<rparr> board_rect)
     = session 544 800 [] half_rnd [wheel] [press_wheel, move_near, PointerUp] \<and>
   pieces (run (session 544 800 [] half_rnd [wheel] [press_wheel, move_near, PointerUp])
             [press_wheel, move_far, PointerUp])
     = [wheel_piece 500 800 True]"
  using completed_refuses_pointer_down
    [OF refl, of 544 800 "[]" half_rnd "[wheel]" "[press_wheel, move_near, PointerUp]"
       "''wheel''" "\<lparr>clientX = 276, clientY = 360\<rparr>" board_rect
       "[press_wheel, move_far, PointerUp]"]
  by (simp add: demo_snapped)

subsection \<open>C8: the board size\<close>

text \<open>
  C8 as stated fails: there is no lower clamp. A viewport of 400 by 180 gives a board of
  0 pixels and the scale 0; a viewport of 320 by 150 gives a board of -30 pixels and a
  negative scale.
\<close>

theorem calcBoardPx_no_floor_counterexample:
  "calcBoardPx 400 180 = 0 \<and> scale (calcBoardPx 400 180) = 0 \<and>
   calcBoardPx 320 150 = - 30 \<and> scale (calcBoardPx 320 150) < 0"
  by (simp add: calcBoardPx_def MAX_BOARD_PX_def scale_def BASE_SIZE_def)

text \<open>
  C8, amended. \<^verbatim>\<open>calcBoardPx\<close> returns the least of the viewport width less 32, the
  viewport height less 180 and the maximum of 600 pixels: it is one of the three and
  exceeds none of them. The scale is that number divided by 1024, so it is at most
  600/1024. There is no lower clamp: the scale is positive exactly when the viewport
  is wider than 32 and higher than 180.
\<close>

theorem calcBoardPx_bounds:
  "calcBoardPx vw vh = min (vw - 32) (min (vh - 180) 600) \<and>
   (calcBoardPx vw vh = vw - 32 \<or> calcBoardPx vw vh = vh - 180 \<or> calcBoardPx vw vh = 600) \<and>
   calcBoardPx vw vh \<le> MAX_BOARD_PX \<and> MAX_BOARD_PX = 600 \<and>
   calcBoardPx vw vh \<le> vw - 32 \<and> calcBoardPx vw vh \<le> vh - 180 \<and>
   scale (calcBoardPx vw vh) = real_of_int (min (vw - 32) (min (vh - 180) 600)) / 1024 \<and>
   scale (calcBoardPx vw vh) \<le> 600 / 1024 \<and>
   (0 < scale (calcBoardPx vw vh) \<longleftrightarrow> 32 < vw \<and> 180 < vh)"
  by (auto simp add: calcBoardPx_def MAX_BOARD_PX_def scale_def BASE_SIZE_def min_def)

subsection \<open>C9: one drag session\<close>

text \<open>
  C9 as stated fails. With the wheel and the ladder on the board, a press on the wheel
  records a session for the wheel; a press on the ladder before any release replaces it
  by a session for the ladder, with the ladder's offset.
\<close>

theorem second_pointer_down_counterexample:
  "dragRef (session 544 800 [] half_rnd [wheel, ladder] [press_wheel]) =
     Some \<lparr>id_d = ''wheel'', offX = 8, offY = 8, lastX = None, lastY = None\<rparr> \<and>
   dragRef (session 544 800 [] half_rnd [wheel, ladder] [press_wheel, press_ladder]) =
     Some \<lparr>id_d = ''ladder'', offX = 18, offY = 18, lastX = None, lastY = None\<rparr>"
  by (simp add: model_defs demo_defs)

text \<open>
  C9, amended. At most one drag session is recorded at any time (the state holds an
  optional session). A pointer-down on an unplaced piece before completion records a new
  session for that piece, whatever session was recorded before; a pointer-down after
  completion, on an unknown id or on a placed piece changes nothing; a pointer-move
  keeps the session's id and offset and sets its last position; a resize keeps the
  session; a pointer-up ends it.
\<close>

theorem drag_session_transitions:
  "(\<not> completed s \<and> findIndex (\<lambda>p. id_p p = i) (pieces s) = Some idx \<and>
      \<not> placed (pieces s ! idx) \<longrightarrow>
      dragRef (step s (PointerDown i e r)) =
        Some \<lparr>id_d = i,
              offX = pt_x (toLocal (scale (boardPx s)) e r) - pt_x (position (pieces s ! idx)),
              offY = pt_y (toLocal (scale (boardPx s)) e r) - pt_y (position (pieces s ! idx)),
              lastX = None, lastY = None\<rparr>) \<and>
   (completed s \<or> findIndex (\<lambda>p. id_p p = i) (pieces s) = None \<or>
      (findIndex (\<lambda>p. id_p p = i) (pieces s) = Some idx \<and> placed (pieces s ! idx)) \<longrightarrow>
      step s (PointerDown i e r) = s) \<and>
   (dragRef s = Some d \<longrightarrow>
      (\<exists>x y. dragRef (step s (PointerMove e r)) = Some (d\<lparr>lastX := Some x, lastY := Some y\<rparr>))) \<and>
   dragRef (step s (Resize vw vh)) = dragRef s \<and>
   dragRef (step s PointerUp) = None"
  by (auto simp add: onDown_def onMove_def onUp_def onResize_def Let_def split: option.splits)

text \<open>
  C9, amended, on the sample load with the wheel held: a second press on the wheel
  records a fresh session with the new offset, a press on an unknown id changes
  nothing, and a move keeps the id and the offset.
\<close>

theorem drag_session_transitions_witness:
  "dragRef (step (session 544 800 [] half_rnd [wheel] [press_wheel])
              (PointerDown ''wheel'' \<lparr>clientX = 300, clientY = 400\<rparr> board_rect)) =
     Some \<lparr>id_d = ''wheel'', offX = 56, offY = 88, lastX = None, lastY = None\<rparr> \<and>
   step (session 544 800 [] half_rnd [wheel] [press_wheel])
        (PointerDown ''ghost'' \<lparr>clientX = 300, clientY = 400\<rparr> board_rect) =
     session 544 800 [] half_rnd [wheel] [press_wheel] \<and>
   (\<exists>x y. dragRef (step (session 544 800 [] half_rnd [wheel] [press_wheel])
                      (PointerMove \<lparr>clientX = 300, clientY = 400\<rparr> board_rect)) =
      Some \<lparr>id_d = ''wheel'', offX = 8, offY = 8, lastX = Some x, lastY = Some y\<rparr>)"
  using drag_session_transitions
    [of "session 544 800 [] half_rnd [wheel] [press_wheel]" "''wheel''" 0
        "\<lparr>clientX = 300, clientY = 400\<rparr>" board_rect
        "\<lparr>id_d = ''wheel'', offX = 8, offY = 8, lastX = None, lastY = None\<rparr>" 544 800]
    drag_session_transitions
    [of "session 544 800 [] half_rnd [wheel] [press_wheel]" "''ghost''" 0
        "\<lparr>clientX = 300, clientY = 400\<rparr>" board_rect
        "\<lparr>id_d = ''wheel'', offX = 8, offY = 8, lastX = None, lastY = None\<rparr>" 544 800]
  by (simp add: demo_pressed wheel_piece_def board_rect_def toLocal_def scale_def BASE_SIZE_def)

subsection \<open>C10: release without a move\<close>




end
